theory Spec2Isabelle
  imports Complex_Main "HOL-Library.Word" "HOL-Library.AList"
begin

section \<open>JavaScript values\<close>

text \<open>
  A JavaScript string is a sequence of 16-bit code units; \<open>.length\<close> counts code units.
  \<open>js\<close> turns an ASCII literal into such a sequence.
\<close>

type_synonym jsstring = "16 word list"

definition js :: "string \<Rightarrow> jsstring" where
  "js s = map of_char s"

text \<open>
  Numbers are doubles: a finite double is a rational, and there are the three special
  values. Only the truthiness of a number is ever inspected by \<open>request\<close>.
\<close>

datatype jsnum = Fin rat | PosInf | NegInf | NaN

datatype jsval =
    JUndefined
  | JNull
  | JBool bool
  | JNum jsnum
  | JStr jsstring
  | JArr "jsval list"
  | JObj "(jsstring \<times> jsval) list"

text \<open>An object is the list of its own properties, in the order in which it enumerates them.\<close>

type_synonym obj = "(jsstring \<times> jsval) list"

text \<open>The truthiness test of \<open>if (v)\<close>, \<open>v || d\<close> and \<open>!v\<close>.\<close>

fun truthy :: "jsval \<Rightarrow> bool" where
  "truthy JUndefined = False"
| "truthy JNull = False"
| "truthy (JBool b) = b"
| "truthy (JNum (Fin r)) = (r \<noteq> 0)"
| "truthy (JNum NaN) = False"
| "truthy (JNum PosInf) = True"
| "truthy (JNum NegInf) = True"
| "truthy (JStr s) = (s \<noteq> [])"
| "truthy (JArr xs) = True"
| "truthy (JObj kvs) = True"

datatype exn = TypeError

text \<open>
  Reading a property \<open>v.k\<close>. On \<open>null\<close> and \<open>undefined\<close> it throws a TypeError; on an
  object it is the own property or \<open>undefined\<close>. \<open>request\<close> reads only the names
  \<open>error\<close> and \<open>data\<close>, which no built-in prototype defines, so on primitives and
  arrays the read gives \<open>undefined\<close>.
\<close>

fun get_prop :: "jsval \<Rightarrow> jsstring \<Rightarrow> exn + jsval" where
  "get_prop JUndefined k = Inl TypeError"
| "get_prop JNull k = Inl TypeError"
| "get_prop (JObj kvs) k = Inr (case map_of kvs k of Some v \<Rightarrow> v | None \<Rightarrow> JUndefined)"
| "get_prop (JBool b) k = Inr JUndefined"
| "get_prop (JNum n) k = Inr JUndefined"
| "get_prop (JStr s) k = Inr JUndefined"
| "get_prop (JArr xs) k = Inr JUndefined"

text \<open>
  An array index is a property name that is the decimal numeral, without leading
  zeros, of a number below \<open>2^32 - 1\<close>. An object enumerates such properties first, in
  ascending numeric order, and the others after them in the order of their creation.
\<close>

definition is_digit :: "16 word \<Rightarrow> bool" where
  "is_digit c = (0x30 \<le> c \<and> c \<le> 0x39)"

definition decimal :: "jsstring \<Rightarrow> nat" where
  "decimal k = foldl (\<lambda>n c. 10 * n + (unat c - 48)) 0 k"

definition array_index :: "jsstring \<Rightarrow> nat option" where
  "array_index k =
     (case k of
        [] \<Rightarrow> None
      | c # cs \<Rightarrow>
          if list_all is_digit k \<and> (c \<noteq> 0x30 \<or> cs = []) \<and> decimal k < 4294967295
          then Some (decimal k) else None)"

fun insert_index :: "nat \<Rightarrow> jsstring \<Rightarrow> jsval \<Rightarrow> obj \<Rightarrow> obj" where
  "insert_index n k v [] = [(k, v)]"
| "insert_index n k v ((k', v') # ps) =
     (case array_index k' of
        Some n' \<Rightarrow>
          if n' < n then (k', v') # insert_index n k v ps else (k, v) # (k', v') # ps
      | None \<Rightarrow> (k, v) # (k', v') # ps)"

text \<open>
  The assignment \<open>o[k] = v\<close>: an existing property keeps its position; a new array
  index takes its place among the array indices; any other new property is appended.
\<close>

definition assign :: "jsstring \<Rightarrow> jsval \<Rightarrow> obj \<Rightarrow> obj" where
  "assign k v ob =
     (case array_index k of
        None \<Rightarrow> AList.update k v ob
      | Some n \<Rightarrow>
          if k \<in> set (map fst ob) then AList.update k v ob else insert_index n k v ob)"

text \<open>
  Node's \<open>util._extend(origin, add)\<close>:
  \<^verbatim>\<open>var keys = Object.keys(add); var i = keys.length;
  while (i--) { origin[keys[i]] = add[keys[i]]; }\<close>
  The keys of \<open>add\<close> are assigned from the last to the first; every assignment
  overwrites the property of \<open>origin\<close> with the same name.
\<close>

definition util_extend :: "obj \<Rightarrow> obj \<Rightarrow> obj" where
  "util_extend origin add = foldr (\<lambda>(k, v). assign k v) add origin"

text \<open>\<open>Array.prototype.join()\<close> with its default separator, on an array of strings.\<close>

fun join :: "jsstring list \<Rightarrow> jsstring" where
  "join [] = []"
| "join [x] = x"
| "join (x # y # ys) = x @ js '','' @ join (y # ys)"

text \<open>
  \<open>s.indexOf(needle)\<close>: the first position at which \<open>needle\<close> occurs in \<open>s\<close>, or -1.
\<close>

fun indexOf_from :: "nat \<Rightarrow> jsstring \<Rightarrow> jsstring \<Rightarrow> int" where
  "indexOf_from i [] needle = (if needle = [] then int i else - 1)"
| "indexOf_from i (c # cs) needle =
     (if take (length needle) (c # cs) = needle then int i
      else indexOf_from (Suc i) cs needle)"

definition indexOf :: "jsstring \<Rightarrow> jsstring \<Rightarrow> int" where
  "indexOf s needle = indexOf_from 0 s needle"

text \<open>
  The number of bytes of a string written in UTF-8, as \<open>request.write\<close> writes it:
  one to three bytes for a code unit, four for a surrogate pair, three (the replacement
  character) for a lone surrogate.
\<close>

definition unit_bytes :: "16 word \<Rightarrow> nat" where
  "unit_bytes u = (if u < 0x80 then 1 else if u < 0x800 then 2 else 3)"

definition is_high_surrogate :: "16 word \<Rightarrow> bool" where
  "is_high_surrogate u = (0xD800 \<le> u \<and> u \<le> 0xDBFF)"

definition is_low_surrogate :: "16 word \<Rightarrow> bool" where
  "is_low_surrogate u = (0xDC00 \<le> u \<and> u \<le> 0xDFFF)"

fun utf8_length :: "jsstring \<Rightarrow> nat" where
  "utf8_length [] = 0"
| "utf8_length [u] = unit_bytes u"
| "utf8_length (u # v # us) =
     (if is_high_surrogate u \<and> is_low_surrogate v then 4 + utf8_length us
      else unit_bytes u + utf8_length (v # us))"

definition ascii :: "jsstring \<Rightarrow> bool" where
  "ascii s = list_all (\<lambda>u. u < 0x80) s"

section \<open>The API object and the heap\<close>

text \<open>
  Objects that are shared between \<open>request\<close> and its caller live in a heap, addressed by
  numbers: the caller's \<open>params\<close> object, \<open>this.httpParams\<close> and the headers object that
  \<open>this.httpOptions.headers\<close> refers to. Two references may be the same address.
\<close>

type_synonym heap = "nat \<Rightarrow> obj"

text \<open>
  Modelled from the spec: \<open>Api.Methods\<close>, declared with the constructor of \<open>Api\<close>, which
  is not among the source files: the fixed enumeration GET, POST, PUT, DELETE, each
  constant being its own name as a string.
\<close>

datatype http_method = GET | POST | PUT | DELETE

fun method_name :: "http_method \<Rightarrow> jsstring" where
  "method_name GET = js ''GET''"
| "method_name POST = js ''POST''"
| "method_name PUT = js ''PUT''"
| "method_name DELETE = js ''DELETE''"

text \<open>
  Modelled from the spec: \<open>this.httpOptions\<close>, \<open>this.httpParams\<close> and \<open>this.isBrowser\<close>
  are set by the constructor of \<open>Api\<close>, which is not among the source files. The
  transport configuration holds protocol, host, port, base path, default method and a
  reference to the default headers object.
\<close>

record http_options =
  opt_protocol :: jsstring
  opt_host :: jsstring
  opt_port :: jsstring
  opt_path :: jsstring
  opt_method :: http_method
  opt_headers :: nat

record api =
  httpOptions :: http_options
  httpParams :: nat
  isBrowser :: bool

section \<open>Building the request\<close>

definition requestHasData :: "http_method \<Rightarrow> bool" where
  "requestHasData m = (m \<noteq> GET \<and> m \<noteq> PUT)"

text \<open>
  The argument \<open>fields\<close>: absent, a bare string, or an array of field names.
  \<open>fields_or_empty\<close> is \<open>fields || []\<close> (the empty string is falsy);
  \<open>wrap_string\<close> is the test \<open>typeof fields === 'string'\<close> with its wrapping.
\<close>

datatype fields_arg = NoFields | FieldName jsstring | FieldList "jsstring list"

fun fields_or_empty :: "fields_arg \<Rightarrow> fields_arg" where
  "fields_or_empty NoFields = FieldList []"
| "fields_or_empty (FieldName s) = (if s = [] then FieldList [] else FieldName s)"
| "fields_or_empty (FieldList xs) = FieldList xs"

fun wrap_string :: "fields_arg \<Rightarrow> jsstring list" where
  "wrap_string (FieldName s) = [s]"
| "wrap_string (FieldList xs) = xs"
| "wrap_string NoFields = []"

text \<open>
  The local variable \<open>params\<close> is either the fresh object of \<open>params || {}\<close>, which
  nobody else can reach, or the caller's own object in the heap. \<open>mutate\<close> changes the
  object the variable refers to, in place.
\<close>

datatype params_var = Fresh obj | Ref nat

fun deref :: "heap \<Rightarrow> params_var \<Rightarrow> obj" where
  "deref h (Fresh ob) = ob"
| "deref h (Ref a) = h a"

fun mutate :: "(obj \<Rightarrow> obj) \<Rightarrow> params_var \<times> heap \<Rightarrow> params_var \<times> heap" where
  "mutate f (Fresh ob, h) = (Fresh (f ob), h)"
| "mutate f (Ref a, h) = (Ref a, h(a := f (h a)))"

text \<open>Lines 36 and 37: \<open>params = params || {}; util._extend(params, this.httpParams)\<close>.\<close>

definition merge_params :: "api \<Rightarrow> nat option \<Rightarrow> heap \<Rightarrow> params_var \<times> heap" where
  "merge_params this params h =
     mutate (\<lambda>ob. util_extend ob (h (httpParams this)))
       (case params of None \<Rightarrow> Fresh [] | Some a \<Rightarrow> Ref a, h)"

text \<open>Lines 49 to 51: \<open>if (fields.length !== 0) params.fields = fields.join()\<close>.\<close>

definition set_fields :: "jsstring list \<Rightarrow> params_var \<times> heap \<Rightarrow> params_var \<times> heap" where
  "set_fields fs s =
     (if length fs \<noteq> 0 then mutate (assign (js ''fields'') (JStr (join fs))) s else s)"

text \<open>Lines 39 to 47: the copy of \<open>this.httpOptions\<close>, one level deep, with method and path.\<close>

definition base_options :: "api \<Rightarrow> jsstring \<Rightarrow> http_method \<Rightarrow> http_options" where
  "base_options this path m =
     (httpOptions this)
       \<lparr>opt_method := m,
        opt_path :=
          (if indexOf path (js ''/'') = 0 then opt_path (httpOptions this) @ path
           else opt_path (httpOptions this) @ js ''/'' @ path)\<rparr>"

text \<open>
  Lines 54 to 62: the placement of the serialized parameters. The headers are written
  through the reference that the copy shares with \<open>this.httpOptions\<close>.
\<close>

definition place_params :: "api \<Rightarrow> jsstring \<Rightarrow> http_options \<times> heap \<Rightarrow> http_options \<times> heap" where
  "place_params this paramsQS s =
     (case s of (options, h) \<Rightarrow>
        if paramsQS \<noteq> [] then
          if requestHasData (opt_method options) then
            (options,
             h(opt_headers options :=
                 assign (js ''Content-Length'') (JNum (Fin (of_nat (length paramsQS))))
                   (assign (js ''Content-Type'') (JStr (js ''application/x-www-form-urlencoded''))
                      (h (opt_headers options)))))
          else if \<not> isBrowser this then
            (options\<lparr>opt_path := opt_path options @ js ''?'' @ paramsQS\<rparr>, h)
          else (options, h)
        else (options, h))"

text \<open>
  What \<open>request\<close> hands to its transport: in a server context the options object and
  the body written with \<open>request.write\<close> (if any); in a browser context the URL of the
  injected script.
\<close>

datatype issued = HttpRequest "jsstring option" | ScriptLoad jsstring

record call =
  options :: http_options
  serialized :: obj
  paramsQS :: jsstring
  issued :: issued
  heap_after :: heap

text \<open>
  The synchronous part of \<open>Api.prototype.request\<close>. The serializer
  \<open>queryString.stringify\<close> belongs to the platform and is a parameter.
\<close>

definition request ::
  "(obj \<Rightarrow> jsstring) \<Rightarrow> api \<Rightarrow> heap \<Rightarrow> jsstring \<Rightarrow> nat option \<Rightarrow> fields_arg \<Rightarrow> http_method \<Rightarrow> call" where
  "request stringify this h path params flds m =
     (let fs = wrap_string (fields_or_empty flds);
          (pv, h1) = set_fields fs (merge_params this params h);
          ser = deref h1 pv;
          qs = stringify ser;
          (opts, h2) = place_params this qs (base_options this path m, h1)
      in if isBrowser this then
           (let (pv', h3) =
                  mutate (\<lambda>ob. util_extend ob
                            [(js ''jsonp'', JStr (js ''callback'')),
                             (js ''method'', JStr (method_name m))]) (pv, h2);
                url = opt_protocol opts @ js ''//'' @ opt_host opts @ js '':'' @ opt_port opts
                        @ opt_path opts @ js ''?'' @ stringify (deref h3 pv')
            in \<lparr>options = opts, serialized = ser, paramsQS = qs,
                issued = ScriptLoad url, heap_after = h3\<rparr>)
         else
           \<lparr>options = opts, serialized = ser, paramsQS = qs,
            issued = HttpRequest (if qs \<noteq> [] \<and> requestHasData (opt_method opts)
                                  then Some qs else None),
            heap_after = h2\<rparr>)"

section \<open>Settling the promise\<close>

text \<open>
  A promise is settled by the first call of \<open>resolve\<close> or \<open>reject\<close>; later calls have
  no effect. A rejection carries a JavaScript value or the error object of the
  transport.
\<close>

datatype 'e reason = Value jsval | TransportError 'e

datatype 'e promise = Pending | Resolved jsval | Rejected "'e reason"

fun resolve :: "jsval \<Rightarrow> 'e promise \<Rightarrow> 'e promise" where
  "resolve v Pending = Resolved v"
| "resolve v p = p"

fun reject :: "'e reason \<Rightarrow> 'e promise \<Rightarrow> 'e promise" where
  "reject r Pending = Rejected r"
| "reject r p = p"

text \<open>
  Lines 89 to 96, the JSONP callback. A TypeError thrown by the property read leaves
  the handler without settling the promise.
\<close>

definition on_jsonp :: "jsval \<Rightarrow> 'e promise \<Rightarrow> 'e promise" where
  "on_jsonp jsonpData p =
     (case get_prop jsonpData (js ''error'') of
        Inl ex \<Rightarrow> p
      | Inr err \<Rightarrow>
          if truthy err then reject (Value err) p
          else (case get_prop jsonpData (js ''data'') of
                  Inl ex \<Rightarrow> p
                | Inr d \<Rightarrow> resolve d p))"

text \<open>
  Lines 112 to 127, the handler of the response's \<open>end\<close> event. \<open>JSON.parse\<close> belongs
  to the platform and is a parameter; \<open>None\<close> is its SyntaxError.
\<close>

definition on_end :: "(jsstring \<Rightarrow> jsval option) \<Rightarrow> jsstring \<Rightarrow> 'e promise \<Rightarrow> 'e promise" where
  "on_end parse body p =
     (case parse body of
        None \<Rightarrow> reject (Value (JStr body)) p
      | Some data \<Rightarrow>
          (case get_prop data (js ''error'') of
             Inl ex \<Rightarrow> p
           | Inr err \<Rightarrow>
               if truthy err then reject (Value data) p
               else (case get_prop data (js ''data'') of
                       Inl ex \<Rightarrow> p
                     | Inr d \<Rightarrow> resolve d p)))"

text \<open>
  What can happen after the request is issued: the transport calls the response
  callback, delivers a chunk, ends the response or reports a connection error (on the
  request object in a server context, as a failed load of the injected script in a
  browser context); the loaded script calls \<open>window.callback\<close>. \<open>body\<close> is the
  variable of the response callback, \<open>None\<close> until the callback has run.
\<close>

datatype 'e event = Response | Data jsstring | End | Error 'e | Callback jsval

record 'e pending_call =
  body :: "jsstring option"
  promise :: "'e promise"

text \<open>
  In a browser context only \<open>window.callback\<close> is registered; in a server context the
  response callback (called once), the \<open>data\<close> and \<open>end\<close> handlers of the response and
  the \<open>error\<close> handler of the request are. An event without a handler changes nothing.
\<close>

fun handle ::
  "(jsstring \<Rightarrow> jsval option) \<Rightarrow> bool \<Rightarrow> 'e pending_call \<Rightarrow> 'e event \<Rightarrow> 'e pending_call" where
  "handle parse browser c (Callback jsonpData) =
     (if browser then c\<lparr>promise := on_jsonp jsonpData (promise c)\<rparr> else c)"
| "handle parse browser c Response =
     (if browser then c
      else (case body c of None \<Rightarrow> c\<lparr>body := Some []\<rparr> | Some b \<Rightarrow> c))"
| "handle parse browser c (Data chunk) =
     (if browser then c
      else (case body c of None \<Rightarrow> c | Some b \<Rightarrow> c\<lparr>body := Some (b @ chunk)\<rparr>))"
| "handle parse browser c End =
     (if browser then c
      else (case body c of None \<Rightarrow> c
            | Some b \<Rightarrow> c\<lparr>promise := on_end parse b (promise c)\<rparr>))"
| "handle parse browser c (Error e) =
     (if browser then c else c\<lparr>promise := reject (TransportError e) (promise c)\<rparr>)"

definition run ::
  "(jsstring \<Rightarrow> jsval option) \<Rightarrow> bool \<Rightarrow> 'e pending_call \<Rightarrow> 'e event list \<Rightarrow> 'e pending_call" where
  "run parse browser c evs = fold (\<lambda>ev c. handle parse browser c ev) evs c"

text \<open>The state of the promise that \<open>request\<close> returned, after the given events.\<close>

definition settled :: "(jsstring \<Rightarrow> jsval option) \<Rightarrow> api \<Rightarrow> 'e event list \<Rightarrow> 'e promise" where
  "settled parse this evs =
     promise (run parse (isBrowser this) \<lparr>body = None, promise = Pending\<rparr> evs)"

text \<open>
  The parameter object after lines 36, 37 and 49 to 51, with the heap it lives in: what
  \<open>request\<close> serializes.
\<close>

definition prepared :: "api \<Rightarrow> heap \<Rightarrow> nat option \<Rightarrow> fields_arg \<Rightarrow> params_var \<times> heap" where
  "prepared this h params flds =
     set_fields (wrap_string (fields_or_empty flds)) (merge_params this params h)"

text \<open>
  The request path in the words of the specification: the base path and the given path
  concatenated directly when the given path begins with a slash, with one slash between
  them otherwise.
\<close>

definition spec_request_path :: "jsstring \<Rightarrow> jsstring \<Rightarrow> jsstring" where
  "spec_request_path base path =
     (if take 1 path = js ''/'' then base @ path else base @ js ''/'' @ path)"

text \<open>
  The comma-join in the words of the specification: the names in their order, every
  name after the first preceded by a comma.
\<close>

definition spec_comma_join :: "jsstring list \<Rightarrow> jsstring" where
  "spec_comma_join fs =
     (case fs of [] \<Rightarrow> [] | f # gs \<Rightarrow> f @ concat (map (\<lambda>g. js '','' @ g) gs))"

section \<open>Sample configuration\<close>

text \<open>
  A serializer for objects whose keys and string values need no escaping, standing in
  for \<open>queryString.stringify\<close> on such objects.
\<close>

fun qs_value :: "jsval \<Rightarrow> jsstring" where
  "qs_value (JStr s) = s"
| "qs_value v = []"

fun qs_plain :: "obj \<Rightarrow> jsstring" where
  "qs_plain [] = []"
| "qs_plain [(k, v)] = k @ js ''='' @ qs_value v"
| "qs_plain ((k, v) # kv # kvs) = k @ js ''='' @ qs_value v @ js ''&'' @ qs_plain (kv # kvs)"

text \<open>\<open>JSON.parse\<close> on a few response bodies; every other text counts as malformed here.\<close>

definition parse_samples :: "jsstring \<Rightarrow> jsval option" where
  \<open>parse_samples b =
     map_of
       [(js ''{"data":{"id":1}}'', JObj [(js ''data'', JObj [(js ''id'', JNum (Fin 1))])]),
        (js ''{"error":"not found"}'', JObj [(js ''error'', JStr (js ''not found''))]),
        (js ''{"error":"","data":7}'',
           JObj [(js ''error'', JStr []), (js ''data'', JNum (Fin 7))]),
        (js ''{"error":0}'', JObj [(js ''error'', JNum (Fin 0))]),
        (js ''{"error":null}'', JObj [(js ''error'', JNull)])] b\<close>

text \<open>
  An API object over a heap with the caller's parameters at address 0, the default
  parameters at address 1 and the default headers at address 2.
\<close>

definition heap0 :: heap where
  "heap0 = (\<lambda>a. [])
     (0 := [(js ''a'', JStr (js ''1'')), (js ''b'', JStr (js ''x''))],
      1 := [(js ''a'', JStr (js ''2'')), (js ''sessionID'', JStr (js ''s1''))],
      2 := [])"

definition server_api :: api where
  "server_api =
     \<lparr>httpOptions =
        \<lparr>opt_protocol = js ''https:'', opt_host = js ''example.org'', opt_port = js ''443'',
         opt_path = js ''/attask/api'', opt_method = GET, opt_headers = 2\<rparr>,
      httpParams = 1, isBrowser = False\<rparr>"

definition browser_api :: api where
  "browser_api = server_api\<lparr>isBrowser := True\<rparr>"

section \<open>Facts about the building blocks\<close>

lemma map_of_insert_index:
  "k \<notin> set (map fst ob) \<Longrightarrow> map_of (insert_index n k v ob) x = ((map_of ob)(k \<mapsto> v)) x"
proof (induction ob)
  case Nil
  then show ?case by simp
next
  case (Cons p ps)
  obtain k' v' where p: "p = (k', v')" by (cases p)
  have ne: "k' \<noteq> k" and fresh: "k \<notin> set (map fst ps)"
    using Cons.prems p by auto
  have "map_of ((k', v') # insert_index n k v ps) x = ((map_of ((k', v') # ps))(k \<mapsto> v)) x"
    using Cons.IH[OF fresh] ne by auto
  then show ?case
    unfolding p using ne by (auto split: option.splits)
qed

lemma map_of_assign: "map_of (assign k v ob) = (map_of ob)(k \<mapsto> v)"
proof (rule ext)
  fix x
  show "map_of (assign k v ob) x = ((map_of ob)(k \<mapsto> v)) x"
  proof (cases "array_index k")
    case None
    then show ?thesis by (simp add: assign_def update_conv')
  next
    case (Some n)
    show ?thesis
    proof (cases "k \<in> set (map fst ob)")
      case True
      then show ?thesis using Some by (simp add: assign_def update_conv')
    next
      case False
      then show ?thesis
        using Some map_of_insert_index[OF False, of n v x] by (simp add: assign_def)
    qed
  qed
qed

lemma map_of_util_extend: "map_of (util_extend origin add) = map_of origin ++ map_of add"
  unfolding util_extend_def
proof (induction add)
  case Nil
  then show ?case by simp
next
  case (Cons p ps)
  obtain k v where p: "p = (k, v)" by (cases p)
  have "map_of (foldr (\<lambda>(k, v). assign k v) (p # ps) origin)
          = (map_of (foldr (\<lambda>(k, v). assign k v) ps origin))(k \<mapsto> v)"
    unfolding p by (simp add: map_of_assign)
  also have "\<dots> = (map_of origin ++ map_of ps)(k \<mapsto> v)"
    by (simp only: Cons.IH)
  also have "\<dots> = map_of origin ++ map_of (p # ps)"
    unfolding p by (simp add: map_add_upd)
  finally show ?case .
qed

lemma deref_merge_params:
  "merge_params this params h = (pv, h1) \<Longrightarrow>
   map_of (deref h1 pv) =
     (case params of None \<Rightarrow> Map.empty | Some a \<Rightarrow> map_of (h a)) ++ map_of (h (httpParams this))"
  unfolding merge_params_def
  by (cases params) (auto simp: map_of_util_extend)

lemma deref_set_fields:
  "set_fields fs (pv, h) = (pv', h') \<Longrightarrow>
   map_of (deref h' pv') =
     (if fs = [] then map_of (deref h pv)
      else (map_of (deref h pv))(js ''fields'' \<mapsto> JStr (join fs)))"
  unfolding set_fields_def
  by (cases pv) (auto simp: map_of_assign split: if_splits)

lemma request_serialized:
  "serialized (request stringify this h path params flds m) =
     (case set_fields (wrap_string (fields_or_empty flds)) (merge_params this params h) of
        (pv, h1) \<Rightarrow> deref h1 pv)"
  by (simp add: request_def Let_def split: prod.splits)

lemma request_paramsQS:
  "paramsQS (request stringify this h path params flds m) =
     stringify (serialized (request stringify this h path params flds m))"
  by (simp add: request_def Let_def split: prod.splits)

lemma map_of_serialized:
  "map_of (serialized (request stringify this h path params flds m)) =
     (let merged = (case params of None \<Rightarrow> Map.empty | Some a \<Rightarrow> map_of (h a))
                     ++ map_of (h (httpParams this));
          fs = wrap_string (fields_or_empty flds)
      in if fs = [] then merged else merged(js ''fields'' \<mapsto> JStr (join fs)))"
proof -
  obtain pv h1 where m: "merge_params this params h = (pv, h1)"
    by (cases "merge_params this params h")
  obtain pv' h2 where s: "set_fields (wrap_string (fields_or_empty flds)) (pv, h1) = (pv', h2)"
    by (cases "set_fields (wrap_string (fields_or_empty flds)) (pv, h1)")
  show ?thesis
    using deref_merge_params[OF m] deref_set_fields[OF s] m s
    by (simp add: request_serialized Let_def)
qed

lemma indexOf_from_ge: "indexOf_from i s n = - 1 \<or> int i \<le> indexOf_from i s n"
  by (induction i s n rule: indexOf_from.induct) auto

lemma indexOf_slash: "indexOf p (js ''/'') = 0 \<longleftrightarrow> take 1 p = js ''/''"
proof (cases p)
  case Nil then show ?thesis by (simp add: indexOf_def js_def)
next
  case (Cons c cs)
  have "indexOf_from (Suc 0) cs (js ''/'') \<noteq> 0"
    using indexOf_from_ge[of "Suc 0" cs "js ''/''"] by auto
  then show ?thesis using Cons by (auto simp: indexOf_def js_def)
qed

lemma base_options_simps:
  "opt_path (base_options this path m) = spec_request_path (opt_path (httpOptions this)) path"
  "opt_method (base_options this path m) = m"
  "opt_headers (base_options this path m) = opt_headers (httpOptions this)"
  "opt_protocol (base_options this path m) = opt_protocol (httpOptions this)"
  "opt_host (base_options this path m) = opt_host (httpOptions this)"
  "opt_port (base_options this path m) = opt_port (httpOptions this)"
  by (simp_all add: base_options_def spec_request_path_def indexOf_slash)

lemma place_params_fst:
  "opt_method (fst (place_params this qs (opts, h))) = opt_method opts"
  "opt_headers (fst (place_params this qs (opts, h))) = opt_headers opts"
  "opt_protocol (fst (place_params this qs (opts, h))) = opt_protocol opts"
  "opt_host (fst (place_params this qs (opts, h))) = opt_host opts"
  "opt_port (fst (place_params this qs (opts, h))) = opt_port opts"
  "opt_path (fst (place_params this qs (opts, h))) =
     opt_path opts @
       (if qs \<noteq> [] \<and> \<not> requestHasData (opt_method opts) \<and> \<not> isBrowser this
        then js ''?'' @ qs else [])"
  by (simp_all add: place_params_def)

lemma place_params_snd:
  "snd (place_params this qs (opts, h)) =
     (if qs \<noteq> [] \<and> requestHasData (opt_method opts)
      then h(opt_headers opts :=
               assign (js ''Content-Length'') (JNum (Fin (of_nat (length qs))))
                 (assign (js ''Content-Type'') (JStr (js ''application/x-www-form-urlencoded''))
                    (h (opt_headers opts))))
      else h)"
  by (simp add: place_params_def)

lemma request_options:
  "options (request stringify this h path params flds m) =
     fst (place_params this (paramsQS (request stringify this h path params flds m))
            (base_options this path m, snd (prepared this h params flds)))"
  by (simp add: request_def prepared_def Let_def split: prod.splits)

lemma request_issued_server:
  "\<not> isBrowser this \<Longrightarrow>
   issued (request stringify this h path params flds m) =
     HttpRequest (if paramsQS (request stringify this h path params flds m) \<noteq> [] \<and> requestHasData m
                  then Some (paramsQS (request stringify this h path params flds m)) else None)"
proof -
  assume nb: "\<not> isBrowser this"
  obtain pv h1 where p: "set_fields (wrap_string (fields_or_empty flds)) (merge_params this params h) = (pv, h1)"
    by (cases "set_fields (wrap_string (fields_or_empty flds)) (merge_params this params h)")
  obtain opts h2 where q: "place_params this (stringify (deref h1 pv)) (base_options this path m, h1) = (opts, h2)"
    by (cases "place_params this (stringify (deref h1 pv)) (base_options this path m, h1)")
  have "opt_method opts = m"
    using place_params_fst(1)[of this "stringify (deref h1 pv)" "base_options this path m" h1] q
    by (simp add: base_options_simps)
  then show ?thesis using nb p q by (simp add: request_def Let_def)
qed

lemma request_issued_browser:
  "isBrowser this \<Longrightarrow>
   \<exists>q. issued (request stringify this h path params flds m) =
     ScriptLoad (opt_protocol (httpOptions this) @ js ''//'' @ opt_host (httpOptions this) @ js '':''
        @ opt_port (httpOptions this)
        @ opt_path (options (request stringify this h path params flds m)) @ js ''?'' @ q)"
proof -
  assume b: "isBrowser this"
  obtain pv h1 where p: "set_fields (wrap_string (fields_or_empty flds)) (merge_params this params h) = (pv, h1)"
    by (cases "set_fields (wrap_string (fields_or_empty flds)) (merge_params this params h)")
  obtain opts h2 where q: "place_params this (stringify (deref h1 pv)) (base_options this path m, h1) = (opts, h2)"
    by (cases "place_params this (stringify (deref h1 pv)) (base_options this path m, h1)")
  have o: "opt_protocol opts = opt_protocol (httpOptions this)" "opt_host opts = opt_host (httpOptions this)"
     "opt_port opts = opt_port (httpOptions this)"
    using place_params_fst(3,4,5)[of this "stringify (deref h1 pv)" "base_options this path m" h1] q
    by (simp_all add: base_options_simps)
  show ?thesis using b p q o by (simp add: request_def Let_def split: prod.splits)
qed

lemma request_heap_server:
  "\<not> isBrowser this \<Longrightarrow>
   heap_after (request stringify this h path params flds m) =
     snd (place_params this (paramsQS (request stringify this h path params flds m))
            (base_options this path m, snd (prepared this h params flds)))"
  by (simp add: request_def prepared_def Let_def split: prod.splits)

lemma request_heap_browser:
  "isBrowser this \<Longrightarrow>
   heap_after (request stringify this h path params flds m) =
     snd (mutate (\<lambda>ob. util_extend ob
                    [(js ''jsonp'', JStr (js ''callback'')), (js ''method'', JStr (method_name m))])
            (fst (prepared this h params flds),
             snd (place_params this (paramsQS (request stringify this h path params flds m))
                   (base_options this path m, snd (prepared this h params flds)))))"
  by (simp add: request_def prepared_def Let_def split: prod.splits)

lemma request_common:
  "opt_headers (options (request stringify this h path params flds m)) = opt_headers (httpOptions this)"
  "opt_method (options (request stringify this h path params flds m)) = m"
  by (simp_all add: request_options place_params_fst base_options_simps)

lemma headers_after_write:
  assumes "qs \<noteq> []" "requestHasData (opt_method opts)"
  shows "map_of (snd (place_params this qs (opts, h)) (opt_headers opts)) (js ''Content-Type'')
           = Some (JStr (js ''application/x-www-form-urlencoded''))"
    and "map_of (snd (place_params this qs (opts, h)) (opt_headers opts)) (js ''Content-Length'')
           = Some (JNum (Fin (of_nat (length qs))))"
  using assms by (simp_all add: place_params_snd map_of_assign js_def)

lemma mutate_extend_keeps:
  assumes "k \<notin> fst ` set add"
  shows "map_of (snd (mutate (\<lambda>ob. util_extend ob add) (pv, h)) a) k = map_of (h a) k"
proof (cases pv)
  case (Fresh ob)
  then show ?thesis by simp
next
  case (Ref b)
  have "map_of add k = None" using assms by (simp add: map_of_eq_None_iff)
  then show ?thesis using Ref by (simp add: map_of_util_extend map_add_def)
qed

lemma headers_sent:
  assumes r: "r = request stringify this h path params flds m"
    and qs: "paramsQS r \<noteq> []" and m: "requestHasData m"
  shows "map_of (heap_after r (opt_headers (options r))) (js ''Content-Type'')
           = Some (JStr (js ''application/x-www-form-urlencoded''))"
    and "map_of (heap_after r (opt_headers (options r))) (js ''Content-Length'')
           = Some (JNum (Fin (of_nat (length (paramsQS r)))))"
proof -
  let ?h1 = "snd (prepared this h params flds)"
  let ?b = "base_options this path m"
  have hd: "opt_headers (options r) = opt_headers ?b"
    by (simp add: r request_common base_options_simps)
  have md: "requestHasData (opt_method ?b)" using m by (simp add: base_options_simps)
  note w = headers_after_write[OF qs md, of this ?h1]
  have keys: "js ''Content-Type'' \<notin> fst ` set [(js ''jsonp'', JStr (js ''callback'')), (js ''method'', JStr (method_name m))]"
     "js ''Content-Length'' \<notin> fst ` set [(js ''jsonp'', JStr (js ''callback'')), (js ''method'', JStr (method_name m))]"
    by (simp_all add: js_def)
  show "map_of (heap_after r (opt_headers (options r))) (js ''Content-Type'')
           = Some (JStr (js ''application/x-www-form-urlencoded''))"
  proof (cases "isBrowser this")
    case True
    then show ?thesis
      unfolding hd using w(1) mutate_extend_keeps[OF keys(1)]
      by (simp add: r request_heap_browser)
  next
    case False
    then show ?thesis unfolding hd using w(1) by (simp add: r request_heap_server)
  qed
  show "map_of (heap_after r (opt_headers (options r))) (js ''Content-Length'')
           = Some (JNum (Fin (of_nat (length (paramsQS r)))))"
  proof (cases "isBrowser this")
    case True
    then show ?thesis
      unfolding hd using w(2) mutate_extend_keeps[OF keys(2)]
      by (simp add: r request_heap_browser)
  next
    case False
    then show ?thesis unfolding hd using w(2) by (simp add: r request_heap_server)
  qed
qed

lemma ascii_not_high: "u < 0x80 \<Longrightarrow> \<not> is_high_surrogate u"
  by (simp add: is_high_surrogate_def word_le_nat_alt word_less_nat_alt)

lemma utf8_length_ascii: "ascii s \<Longrightarrow> utf8_length s = length s"
proof (induction s rule: utf8_length.induct)
  case 1 then show ?case by simp
next
  case (2 u) then show ?case by (simp add: ascii_def unit_bytes_def)
next
  case (3 u v us)
  have "\<not> is_high_surrogate u" using 3(3) by (simp add: ascii_def ascii_not_high)
  then show ?case using 3 by (simp add: ascii_def unit_bytes_def)
qed

lemma join_spec_comma_join: "join fs = spec_comma_join fs"
proof (induction fs rule: join.induct)
  case 1
  show ?case by (simp add: spec_comma_join_def)
next
  case (2 x)
  show ?case by (simp add: spec_comma_join_def)
next
  case (3 x y ys)
  then show ?case by (simp add: spec_comma_join_def)
qed

lemma deref_place_params:
  assumes "k \<noteq> js ''Content-Type''" and "k \<noteq> js ''Content-Length''"
  shows "map_of (deref (snd (place_params this qs (opts, h))) pv) k = map_of (deref h pv) k"
proof (cases pv)
  case (Fresh ob)
  then show ?thesis by simp
next
  case (Ref a)
  then show ?thesis using assms by (simp add: place_params_snd map_of_assign)
qed

lemma request_issued_browser_params:
  assumes b: "isBrowser this"
  shows "\<exists>ob. issued (request stringify this h path params flds m) =
           ScriptLoad (opt_protocol (httpOptions this) @ js ''//'' @ opt_host (httpOptions this)
             @ js '':'' @ opt_port (httpOptions this)
             @ spec_request_path (opt_path (httpOptions this)) path @ js ''?'' @ stringify ob) \<and>
           map_of ob (js ''jsonp'') = Some (JStr (js ''callback'')) \<and>
           map_of ob (js ''method'') = Some (JStr (method_name m)) \<and>
           (\<forall>k. k \<notin> {js ''jsonp'', js ''method'', js ''Content-Type'', js ''Content-Length''} \<longrightarrow>
                map_of ob k = map_of (serialized (request stringify this h path params flds m)) k)"
proof -
  let ?extra = "[(js ''jsonp'', JStr (js ''callback'')), (js ''method'', JStr (method_name m))]"
  obtain pv h1 where p: "set_fields (wrap_string (fields_or_empty flds)) (merge_params this params h) = (pv, h1)"
    by (cases "set_fields (wrap_string (fields_or_empty flds)) (merge_params this params h)")
  obtain opts h2 where q: "place_params this (stringify (deref h1 pv)) (base_options this path m, h1) = (opts, h2)"
    by (cases "place_params this (stringify (deref h1 pv)) (base_options this path m, h1)")
  obtain pv' h3 where e: "mutate (\<lambda>ob. util_extend ob ?extra) (pv, h2) = (pv', h3)"
    by (cases "mutate (\<lambda>ob. util_extend ob ?extra) (pv, h2)")
  let ?ob = "deref h3 pv'"
  have ob: "?ob = util_extend (deref h2 pv) ?extra"
    using e by (cases pv) auto
  have o: "opt_protocol opts = opt_protocol (httpOptions this)"
    "opt_host opts = opt_host (httpOptions this)"
    "opt_port opts = opt_port (httpOptions this)"
    "opt_path opts = spec_request_path (opt_path (httpOptions this)) path"
    using place_params_fst(3,4,5,6)[of this "stringify (deref h1 pv)" "base_options this path m" h1] q b
    by (simp_all add: base_options_simps)
  have ser: "serialized (request stringify this h path params flds m) = deref h1 pv"
    using p by (simp add: request_serialized)
  have h2: "h2 = snd (place_params this (stringify (deref h1 pv)) (base_options this path m, h1))"
    using q by simp
  have ne: "js ''jsonp'' \<noteq> js ''method''" by (simp add: js_def)
  have 1: "issued (request stringify this h path params flds m) =
           ScriptLoad (opt_protocol (httpOptions this) @ js ''//'' @ opt_host (httpOptions this)
             @ js '':'' @ opt_port (httpOptions this)
             @ spec_request_path (opt_path (httpOptions this)) path @ js ''?'' @ stringify ?ob)"
    using b p q e o by (simp add: request_def Let_def)
  have 2: "map_of ?ob (js ''jsonp'') = Some (JStr (js ''callback''))"
    unfolding ob by (simp add: map_of_util_extend)
  have 3: "map_of ?ob (js ''method'') = Some (JStr (method_name m))"
    unfolding ob using ne by (simp add: map_of_util_extend map_add_def)
  have 4: "map_of ?ob k = map_of (serialized (request stringify this h path params flds m)) k"
    if "k \<notin> {js ''jsonp'', js ''method'', js ''Content-Type'', js ''Content-Length''}" for k
  proof -
    have "map_of ?ob k = map_of (deref h2 pv) k"
      unfolding ob using that by (simp add: map_of_util_extend map_add_def)
    also have "\<dots> = map_of (deref h1 pv) k"
      unfolding h2 using that by (simp add: deref_place_params)
    finally show ?thesis by (simp add: ser)
  qed
  show ?thesis using 1 2 3 4 by blast
qed


section \<open>Facts about settling\<close>

lemma resolve_settled: "p \<noteq> Pending \<Longrightarrow> resolve v p = p"
  by (cases p) simp_all

lemma reject_settled: "p \<noteq> Pending \<Longrightarrow> reject r p = p"
  by (cases p) simp_all

lemma on_end_settled: "p \<noteq> Pending \<Longrightarrow> on_end parse b p = p"
  by (simp add: on_end_def resolve_settled reject_settled split: option.splits sum.splits)

lemma on_jsonp_settled: "p \<noteq> Pending \<Longrightarrow> on_jsonp d p = p"
  by (simp add: on_jsonp_def resolve_settled reject_settled split: sum.splits)

lemma handle_settled:
  "promise c \<noteq> Pending \<Longrightarrow> promise (handle parse browser c ev) = promise c"
  by (cases ev)
     (simp_all add: on_end_settled on_jsonp_settled reject_settled split: option.splits)

lemma run_Nil: "run parse browser c [] = c"
  by (simp add: run_def)

lemma run_Cons: "run parse browser c (ev # evs) = run parse browser (handle parse browser c ev) evs"
  by (simp add: run_def)

lemma run_append:
  "run parse browser c (xs @ ys) = run parse browser (run parse browser c xs) ys"
  by (simp add: run_def)

lemma run_settled:
  "promise c \<noteq> Pending \<Longrightarrow> promise (run parse browser c evs) = promise c"
proof (induction evs arbitrary: c)
  case Nil
  then show ?case by (simp add: run_Nil)
next
  case (Cons ev evs)
  have "promise (handle parse browser c ev) = promise c"
    using Cons.prems by (rule handle_settled)
  then show ?case using Cons by (simp add: run_Cons)
qed

lemma run_data:
  "body c = Some b \<Longrightarrow>
   run parse False c (map Data chunks) = c\<lparr>body := Some (b @ concat chunks)\<rparr>"
proof (induction chunks arbitrary: c b)
  case Nil
  then show ?case by (simp add: run_Nil)
next
  case (Cons x xs)
  have "body (handle parse False c (Data x)) = Some (b @ x)"
    using Cons.prems by simp
  from Cons.IH[OF this] show ?case using Cons.prems by (simp add: run_Cons)
qed

lemma server_response:
  fixes rest :: "'e event list"
  assumes "\<not> isBrowser this" and "on_end parse (concat chunks) Pending \<noteq> (Pending :: 'e promise)"
  shows "settled parse this (Response # map Data chunks @ End # rest)
           = on_end parse (concat chunks) Pending"
proof -
  let ?c0 = "\<lparr>body = None, promise = Pending\<rparr> :: 'e pending_call"
  let ?c1 = "\<lparr>body = Some [], promise = Pending\<rparr> :: 'e pending_call"
  let ?c2 = "\<lparr>body = Some (concat chunks), promise = Pending\<rparr> :: 'e pending_call"
  have 1: "handle parse False ?c0 Response = ?c1" by simp
  have 2: "run parse False ?c1 (map Data chunks) = ?c2"
    using run_data[of ?c1 "[]" parse chunks] by simp
  have 3: "promise (handle parse False ?c2 End) = on_end parse (concat chunks) Pending" by simp
  have "promise (run parse False (handle parse False ?c2 End) rest)
          = on_end parse (concat chunks) Pending"
    using run_settled[of "handle parse False ?c2 End" parse False rest] assms(2) 3 by simp
  then show ?thesis
    using assms(1) 1 2 by (simp add: settled_def run_Cons run_append)
qed

lemma browser_callback:
  fixes rest :: "'e event list"
  assumes "isBrowser this" and "on_jsonp d Pending \<noteq> (Pending :: 'e promise)"
  shows "settled parse this (Callback d # rest) = on_jsonp d Pending"
proof -
  let ?c0 = "\<lparr>body = None, promise = Pending\<rparr> :: 'e pending_call"
  have "promise (handle parse True ?c0 (Callback d)) = on_jsonp d Pending" by simp
  then have "promise (run parse True (handle parse True ?c0 (Callback d)) rest) = on_jsonp d Pending"
    using run_settled[of "handle parse True ?c0 (Callback d)" parse True rest] assms(2) by simp
  then show ?thesis using assms(1) by (simp add: settled_def run_Cons)
qed

lemma settled_append:
  "settled parse this (xs @ ys) =
     promise (run parse (isBrowser this) (run parse (isBrowser this) \<lparr>body = None, promise = Pending\<rparr> xs) ys)"
  by (simp add: settled_def run_append)

lemma settled_stable:
  "settled parse this evs \<noteq> Pending \<Longrightarrow> settled parse this (evs @ rest) = settled parse this evs"
  unfolding settled_append by (simp add: settled_def run_settled)

lemma settled_error:
  assumes "\<not> isBrowser this" and "settled parse this pre = (Pending :: 'e promise)"
  shows "settled parse this (pre @ Error e # post) = Rejected (TransportError e)"
proof -
  let ?c = "run parse False \<lparr>body = None, promise = (Pending :: 'e promise)\<rparr> pre"
  have p: "promise ?c = Pending" using assms by (simp add: settled_def)
  have "promise (handle parse False ?c (Error e)) = Rejected (TransportError e)"
    using p by simp
  then have "promise (run parse False (handle parse False ?c (Error e)) post) = Rejected (TransportError e)"
    using run_settled[of "handle parse False ?c (Error e)" parse False post] by simp
  then show ?thesis using assms(1) by (simp add: settled_append run_Cons)
qed


lemma on_end_parse_failure:
  "parse b = None \<Longrightarrow> on_end parse b Pending = Rejected (Value (JStr b))"
  by (simp add: on_end_def)

lemma on_end_error:
  "parse b = Some data \<Longrightarrow> get_prop data (js ''error'') = Inr err \<Longrightarrow> truthy err \<Longrightarrow>
   on_end parse b Pending = Rejected (Value data)"
  by (simp add: on_end_def)

lemma on_end_success:
  "parse b = Some data \<Longrightarrow> get_prop data (js ''error'') = Inr err \<Longrightarrow> \<not> truthy err \<Longrightarrow>
   get_prop data (js ''data'') = Inr d \<Longrightarrow> on_end parse b Pending = Resolved d"
  by (simp add: on_end_def)

lemma on_jsonp_error:
  "get_prop jsonpData (js ''error'') = Inr err \<Longrightarrow> truthy err \<Longrightarrow>
   on_jsonp jsonpData Pending = Rejected (Value err)"
  by (simp add: on_jsonp_def)

lemma on_jsonp_success:
  "get_prop jsonpData (js ''error'') = Inr err \<Longrightarrow> \<not> truthy err \<Longrightarrow>
   get_prop jsonpData (js ''data'') = Inr d \<Longrightarrow> on_jsonp jsonpData Pending = Resolved d"
  by (simp add: on_jsonp_def)

section \<open>The merged parameters\<close>

text \<open>
  Claim C1, as the code has it. The object that \<open>request\<close> serializes holds the caller's
  entries with the entries of \<open>this.httpParams\<close> written over them: on a key that both
  define the instance-level default wins, and a caller's entry survives only on a key
  that the defaults do not define. (A non-empty \<open>fields\<close> argument then sets the key
  \<open>fields\<close>.) The serialized string is the serializer's output on that object.
\<close>

theorem C1_default_parameters_override:
  "map_of (serialized (request stringify this h path params flds m)) k =
     (if k = js ''fields'' \<and> wrap_string (fields_or_empty flds) \<noteq> []
      then Some (JStr (join (wrap_string (fields_or_empty flds))))
      else (case map_of (h (httpParams this)) k of
              Some v \<Rightarrow> Some v
            | None \<Rightarrow> (case params of None \<Rightarrow> None | Some a \<Rightarrow> map_of (h a) k)))
   \<and> paramsQS (request stringify this h path params flds m) =
       stringify (serialized (request stringify this h path params flds m))"
proof
  let ?caller = "case params of None \<Rightarrow> Map.empty | Some a \<Rightarrow> map_of (h a)"
  let ?defaults = "map_of (h (httpParams this))"
  have merged: "(?caller ++ ?defaults) k =
      (case ?defaults k of Some v \<Rightarrow> Some v
       | None \<Rightarrow> (case params of None \<Rightarrow> None | Some a \<Rightarrow> map_of (h a) k))"
    by (simp add: map_add_def split: option.splits)
  show "map_of (serialized (request stringify this h path params flds m)) k =
     (if k = js ''fields'' \<and> wrap_string (fields_or_empty flds) \<noteq> []
      then Some (JStr (join (wrap_string (fields_or_empty flds))))
      else (case ?defaults k of
              Some v \<Rightarrow> Some v
            | None \<Rightarrow> (case params of None \<Rightarrow> None | Some a \<Rightarrow> map_of (h a) k)))"
    unfolding merged[symmetric] by (simp add: map_of_serialized Let_def)
  show "paramsQS (request stringify this h path params flds m) =
       stringify (serialized (request stringify this h path params flds m))"
    by (rule request_paramsQS)
qed

text \<open>
  The theorem at a call with the caller's object \<open>{a: "1", b: "x"}\<close> and the defaults
  \<open>{a: "2", sessionID: "s1"}\<close>: the default \<open>sessionID\<close> is part of what is serialized.
\<close>

theorem C1_default_parameters_override_witness:
  "map_of (serialized (request qs_plain server_api heap0 (js ''task'') (Some 0)
      (FieldName (js ''name'')) GET)) (js ''sessionID'') = Some (JStr (js ''s1''))"
  using C1_default_parameters_override [of qs_plain server_api heap0 "js ''task''" "Some 0"
      "FieldName (js ''name'')" GET "js ''sessionID''"]
  by (simp add: heap0_def server_api_def js_def)

text \<open>
  Claim C1 as stated fails: the caller passes \<open>a = "1"\<close>, the defaults hold \<open>a = "2"\<close>,
  and the serialized object has \<open>a = "2"\<close>; the caller's entry did not override.
\<close>

theorem C1_caller_entry_overridden:
  "map_of (heap0 0) (js ''a'') = Some (JStr (js ''1'')) \<and>
   map_of (heap0 (httpParams server_api)) (js ''a'') = Some (JStr (js ''2'')) \<and>
   map_of (serialized (request qs_plain server_api heap0 (js ''task'') (Some 0) NoFields GET))
     (js ''a'') = Some (JStr (js ''2''))"
  by (simp add: request_serialized merge_params_def set_fields_def util_extend_def assign_def
      array_index_def is_digit_def heap0_def server_api_def js_def)

section \<open>The request path\<close>

text \<open>
  Claim C4. The path of the request, before any query string, is the base path
  \<open>this.httpOptions.path\<close> followed directly by the given path when that begins with a
  slash, and the base path, one slash and the given path otherwise. The only thing that
  may follow it in \<open>options.path\<close> is the question mark with the serialized parameters
  (for GET and PUT in a server context); in a browser context the same path stands in
  the script URL between the port and the question mark.
\<close>

theorem C4_request_path:
  "opt_path (options (request stringify this h path params flds m)) =
     spec_request_path (opt_path (httpOptions this)) path @
       (if paramsQS (request stringify this h path params flds m) \<noteq> [] \<and> \<not> requestHasData m
           \<and> \<not> isBrowser this
        then js ''?'' @ paramsQS (request stringify this h path params flds m) else []) \<and>
   (isBrowser this \<longrightarrow>
      (\<exists>q. issued (request stringify this h path params flds m) =
         ScriptLoad (opt_protocol (httpOptions this) @ js ''//'' @ opt_host (httpOptions this)
           @ js '':'' @ opt_port (httpOptions this)
           @ spec_request_path (opt_path (httpOptions this)) path @ js ''?'' @ q)))"
proof (intro conjI impI)
  show p: "opt_path (options (request stringify this h path params flds m)) =
     spec_request_path (opt_path (httpOptions this)) path @
       (if paramsQS (request stringify this h path params flds m) \<noteq> [] \<and> \<not> requestHasData m
           \<and> \<not> isBrowser this
        then js ''?'' @ paramsQS (request stringify this h path params flds m) else [])"
    by (simp add: request_options place_params_fst base_options_simps)
  assume b: "isBrowser this"
  from request_issued_browser[OF b, of stringify h path params flds m]
  show "\<exists>q. issued (request stringify this h path params flds m) =
         ScriptLoad (opt_protocol (httpOptions this) @ js ''//'' @ opt_host (httpOptions this)
           @ js '':'' @ opt_port (httpOptions this)
           @ spec_request_path (opt_path (httpOptions this)) path @ js ''?'' @ q)"
    using b by (simp add: p)
qed

text \<open>
  The theorem at the paths \<open>/task\<close> and \<open>task\<close> under the base path \<open>/attask/api\<close>:
  both give \<open>/attask/api/task\<close>, in a server and in a browser context.
\<close>

theorem C4_request_path_witness:
  "opt_path (options (request qs_plain server_api heap0 (js ''/task'') None NoFields POST))
     = js ''/attask/api/task'' \<and>
   opt_path (options (request qs_plain server_api heap0 (js ''task'') None NoFields POST))
     = js ''/attask/api/task'' \<and>
   (\<exists>q. issued (request qs_plain browser_api heap0 (js ''task'') None NoFields GET)
          = ScriptLoad (js ''https://example.org:443/attask/api/task?'' @ q))"
proof -
  have d: "requestHasData POST" by (simp add: requestHasData_def)
  have s: "\<not> isBrowser server_api" "opt_path (httpOptions server_api) = js ''/attask/api''"
    by (simp_all add: server_api_def)
  have b: "isBrowser browser_api" "opt_path (httpOptions browser_api) = js ''/attask/api''"
    "opt_protocol (httpOptions browser_api) = js ''https:''"
    "opt_host (httpOptions browser_api) = js ''example.org''"
    "opt_port (httpOptions browser_api) = js ''443''"
    by (simp_all add: browser_api_def server_api_def)
  have p: "spec_request_path (js ''/attask/api'') (js ''/task'') = js ''/attask/api/task''"
    "spec_request_path (js ''/attask/api'') (js ''task'') = js ''/attask/api/task''"
    by (simp_all add: spec_request_path_def js_def)
  have u: "js ''https:'' @ js ''//'' @ js ''example.org'' @ js '':'' @ js ''443''
             @ js ''/attask/api/task'' @ js ''?'' @ q
           = js ''https://example.org:443/attask/api/task?'' @ q" for q
    by (simp add: js_def)
  show ?thesis
    using C4_request_path [of qs_plain server_api heap0 "js ''/task''" None NoFields POST]
      C4_request_path [of qs_plain server_api heap0 "js ''task''" None NoFields POST]
      C4_request_path [of qs_plain browser_api heap0 "js ''task''" None NoFields GET]
    by (simp add: d s b p u)
qed

section \<open>The placement of the serialized parameters\<close>

text \<open>
  Claim C5, as the code has it. With a non-empty serialized parameter string, for POST
  and DELETE \<open>request\<close> sets the headers \<open>Content-Type: application/x-www-form-urlencoded\<close>
  and \<open>Content-Length\<close>, the length of the serialized string, which is its byte length
  when the string is ASCII, as the output of a percent-encoding serializer is; in a
  server context it writes the serialized string as the body of the request, and in a
  browser context it writes no body: what it issues is the load of a script whose URL
  is the request path, a question mark and the serialization of the parameters with
  \<open>jsonp\<close> and \<open>method\<close> added. For GET and PUT in a server context the serialized
  string is appended to the request path after a question mark, and no body is
  written.
\<close>

theorem C5_parameter_placement:
  assumes r: "r = request stringify this h path params flds m"
    and qs: "paramsQS r \<noteq> []"
  shows "(m = POST \<or> m = DELETE \<longrightarrow>
            map_of (heap_after r (opt_headers (options r))) (js ''Content-Type'')
              = Some (JStr (js ''application/x-www-form-urlencoded'')) \<and>
            map_of (heap_after r (opt_headers (options r))) (js ''Content-Length'')
              = Some (JNum (Fin (of_nat (length (paramsQS r))))) \<and>
            (ascii (paramsQS r) \<longrightarrow> length (paramsQS r) = utf8_length (paramsQS r)) \<and>
            (\<not> isBrowser this \<longrightarrow> issued r = HttpRequest (Some (paramsQS r))) \<and>
            (isBrowser this \<longrightarrow>
               (\<exists>ob. issued r =
                   ScriptLoad (opt_protocol (httpOptions this) @ js ''//''
                     @ opt_host (httpOptions this) @ js '':'' @ opt_port (httpOptions this)
                     @ spec_request_path (opt_path (httpOptions this)) path
                     @ js ''?'' @ stringify ob) \<and>
                 map_of ob (js ''jsonp'') = Some (JStr (js ''callback'')) \<and>
                 map_of ob (js ''method'') = Some (JStr (method_name m)) \<and>
                 (\<forall>k. k \<notin> {js ''jsonp'', js ''method'', js ''Content-Type'',
                             js ''Content-Length''} \<longrightarrow>
                      map_of ob k = map_of (serialized r) k)))) \<and>
         ((m = GET \<or> m = PUT) \<and> \<not> isBrowser this \<longrightarrow>
            opt_path (options r)
              = spec_request_path (opt_path (httpOptions this)) path @ js ''?'' @ paramsQS r \<and>
            issued r = HttpRequest None)"
proof (intro conjI impI)
  assume "m = POST \<or> m = DELETE"
  then have d: "requestHasData m" by (auto simp: requestHasData_def)
  show "map_of (heap_after r (opt_headers (options r))) (js ''Content-Type'')
              = Some (JStr (js ''application/x-www-form-urlencoded''))"
    by (rule headers_sent(1)[OF r qs d])
  show "map_of (heap_after r (opt_headers (options r))) (js ''Content-Length'')
              = Some (JNum (Fin (of_nat (length (paramsQS r)))))"
    by (rule headers_sent(2)[OF r qs d])
  show "length (paramsQS r) = utf8_length (paramsQS r)" if "ascii (paramsQS r)"
    using that by (simp add: utf8_length_ascii)
  show "issued r = HttpRequest (Some (paramsQS r))" if "\<not> isBrowser this"
    using that qs d unfolding r by (simp add: request_issued_server)
  show "\<exists>ob. issued r =
           ScriptLoad (opt_protocol (httpOptions this) @ js ''//''
             @ opt_host (httpOptions this) @ js '':'' @ opt_port (httpOptions this)
             @ spec_request_path (opt_path (httpOptions this)) path
             @ js ''?'' @ stringify ob) \<and>
         map_of ob (js ''jsonp'') = Some (JStr (js ''callback'')) \<and>
         map_of ob (js ''method'') = Some (JStr (method_name m)) \<and>
         (\<forall>k. k \<notin> {js ''jsonp'', js ''method'', js ''Content-Type'',
                     js ''Content-Length''} \<longrightarrow>
              map_of ob k = map_of (serialized r) k)"
    if "isBrowser this"
    unfolding r by (rule request_issued_browser_params[OF that])
next
  assume a: "(m = GET \<or> m = PUT) \<and> \<not> isBrowser this"
  then have d: "\<not> requestHasData m" by (auto simp: requestHasData_def)
  show "opt_path (options r)
          = spec_request_path (opt_path (httpOptions this)) path @ js ''?'' @ paramsQS r"
    using a d qs unfolding r by (simp add: request_options place_params_fst base_options_simps)
  show "issued r = HttpRequest None"
    using a d unfolding r by (simp add: request_issued_server)
qed

text \<open>
  The theorem at a POST and at a GET of \<open>task\<close> in a server context, where the
  parameters serialize to the twenty characters \<open>a=2&b=x&sessionID=s1\<close>, and at a
  DELETE in a browser context.
\<close>

theorem C5_parameter_placement_witness:
  "issued (request qs_plain server_api heap0 (js ''task'') (Some 0) NoFields POST)
     = HttpRequest (Some (js ''a=2&b=x&sessionID=s1'')) \<and>
   map_of (heap_after (request qs_plain server_api heap0 (js ''task'') (Some 0) NoFields POST) 2)
     (js ''Content-Length'') = Some (JNum (Fin 20)) \<and>
   opt_path (options (request qs_plain server_api heap0 (js ''task'') (Some 0) NoFields GET))
     = js ''/attask/api/task?a=2&b=x&sessionID=s1'' \<and>
   issued (request qs_plain server_api heap0 (js ''task'') (Some 0) NoFields GET) = HttpRequest None \<and>
   (\<exists>ob. issued (request qs_plain browser_api heap0 (js ''task'') (Some 0) NoFields DELETE)
            = ScriptLoad (js ''https://example.org:443/attask/api/task?'' @ qs_plain ob) \<and>
         map_of ob (js ''method'') = Some (JStr (js ''DELETE'')) \<and>
         map_of ob (js ''b'') = Some (JStr (js ''x'')))"
proof -
  have q: "paramsQS (request qs_plain server_api heap0 (js ''task'') (Some 0) NoFields m)
             = js ''a=2&b=x&sessionID=s1''" for m
    by (simp add: request_paramsQS request_serialized merge_params_def set_fields_def
        util_extend_def assign_def array_index_def is_digit_def heap0_def server_api_def js_def)
  have ne: "paramsQS (request qs_plain server_api heap0 (js ''task'') (Some 0) NoFields m) \<noteq> []"
    for m
    unfolding q by (simp add: js_def)
  have s: "\<not> isBrowser server_api" "opt_headers (httpOptions server_api) = 2"
     "opt_path (httpOptions server_api) = js ''/attask/api''"
    by (simp_all add: server_api_def)
  have p: "spec_request_path (js ''/attask/api'') (js ''task'') @ js ''?'' @ js ''a=2&b=x&sessionID=s1''
             = js ''/attask/api/task?a=2&b=x&sessionID=s1''"
    by (simp add: spec_request_path_def js_def)
  have l: "rat_of_nat (length (js ''a=2&b=x&sessionID=s1'')) = 20"
    by (simp add: js_def)
  have server:
    "issued (request qs_plain server_api heap0 (js ''task'') (Some 0) NoFields POST)
       = HttpRequest (Some (js ''a=2&b=x&sessionID=s1'')) \<and>
     map_of (heap_after (request qs_plain server_api heap0 (js ''task'') (Some 0) NoFields POST) 2)
       (js ''Content-Length'') = Some (JNum (Fin 20)) \<and>
     opt_path (options (request qs_plain server_api heap0 (js ''task'') (Some 0) NoFields GET))
       = js ''/attask/api/task?a=2&b=x&sessionID=s1'' \<and>
     issued (request qs_plain server_api heap0 (js ''task'') (Some 0) NoFields GET) = HttpRequest None"
    using C5_parameter_placement [OF refl ne, of POST] C5_parameter_placement [OF refl ne, of GET]
    by (simp add: q s p l request_common)
  have bser: "serialized (request qs_plain browser_api heap0 (js ''task'') (Some 0) NoFields DELETE)
      = [(js ''a'', JStr (js ''2'')), (js ''b'', JStr (js ''x'')), (js ''sessionID'', JStr (js ''s1''))]"
    by (simp add: request_serialized merge_params_def set_fields_def
        util_extend_def assign_def array_index_def is_digit_def heap0_def server_api_def
        browser_api_def js_def)
  have bne: "paramsQS (request qs_plain browser_api heap0 (js ''task'') (Some 0) NoFields DELETE) \<noteq> []"
    unfolding request_paramsQS bser by (simp add: js_def)
  have b: "isBrowser browser_api" "opt_path (httpOptions browser_api) = js ''/attask/api''"
    "opt_protocol (httpOptions browser_api) = js ''https:''"
    "opt_host (httpOptions browser_api) = js ''example.org''"
    "opt_port (httpOptions browser_api) = js ''443''"
    by (simp_all add: browser_api_def server_api_def)
  have u: "js ''https:'' @ js ''//'' @ js ''example.org'' @ js '':'' @ js ''443''
             @ spec_request_path (js ''/attask/api'') (js ''task'') @ js ''?'' @ x
           = js ''https://example.org:443/attask/api/task?'' @ x" for x
    by (simp add: spec_request_path_def js_def)
  have kb: "js ''b'' \<notin> {js ''jsonp'', js ''method'', js ''Content-Type'', js ''Content-Length''}"
    by (simp add: js_def)
  have mb: "map_of [(js ''a'', JStr (js ''2'')), (js ''b'', JStr (js ''x'')),
                    (js ''sessionID'', JStr (js ''s1''))] (js ''b'') = Some (JStr (js ''x''))"
    by (simp add: js_def)
  from C5_parameter_placement [OF refl bne] b(1)
  obtain ob where ob:
    "issued (request qs_plain browser_api heap0 (js ''task'') (Some 0) NoFields DELETE)
       = ScriptLoad (opt_protocol (httpOptions browser_api) @ js ''//''
           @ opt_host (httpOptions browser_api) @ js '':'' @ opt_port (httpOptions browser_api)
           @ spec_request_path (opt_path (httpOptions browser_api)) (js ''task'')
           @ js ''?'' @ qs_plain ob)"
    "map_of ob (js ''method'') = Some (JStr (method_name DELETE))"
    "\<forall>k. k \<notin> {js ''jsonp'', js ''method'', js ''Content-Type'', js ''Content-Length''} \<longrightarrow>
       map_of ob k
         = map_of (serialized (request qs_plain browser_api heap0 (js ''task'') (Some 0) NoFields DELETE)) k"
    by blast
  have "map_of ob (js ''b'') = Some (JStr (js ''x''))"
    using ob(3) kb mb unfolding bser by simp
  then have browser:
    "\<exists>ob. issued (request qs_plain browser_api heap0 (js ''task'') (Some 0) NoFields DELETE)
            = ScriptLoad (js ''https://example.org:443/attask/api/task?'' @ qs_plain ob) \<and>
         map_of ob (js ''method'') = Some (JStr (js ''DELETE'')) \<and>
         map_of ob (js ''b'') = Some (JStr (js ''x''))"
    using ob(1,2) by (auto simp: b u)
  show ?thesis using server browser by simp
qed

text \<open>
  Claim C5 as stated fails in a browser context: for POST with a non-empty serialized
  string no request body is written; what is issued is the load of a script, with the
  parameters in its URL.
\<close>

theorem C5_browser_writes_no_body:
  "paramsQS (request qs_plain browser_api heap0 (js ''task'') (Some 0) NoFields POST)
     = js ''a=2&b=x&sessionID=s1'' \<and>
   issued (request qs_plain browser_api heap0 (js ''task'') (Some 0) NoFields POST)
     = ScriptLoad (js ''https://example.org:443/attask/api/task?a=2&b=x&sessionID=s1&method=POST&jsonp=callback'')"
  by code_simp

section \<open>The transport configuration\<close>

text \<open>
  Claim C3 does not hold of the code. The copy of \<open>this.httpOptions\<close> is one level
  deep, so \<open>options.headers\<close> is the headers object of \<open>this.httpOptions\<close> itself, and a
  POST with parameters writes \<open>Content-Type\<close> and \<open>Content-Length\<close> into it: the
  headers of the transport configuration were empty before the call and hold both
  entries after it, and a GET that follows, which writes no body, is issued with them.
\<close>

theorem C3_headers_object_mutated:
  "heap0 (opt_headers (httpOptions server_api)) = [] \<and>
   heap_after (request qs_plain server_api heap0 (js ''task'') None NoFields POST)
       (opt_headers (httpOptions server_api))
     = [(js ''Content-Type'', JStr (js ''application/x-www-form-urlencoded'')),
        (js ''Content-Length'', JNum (Fin 16))] \<and>
   issued (request qs_plain server_api
       (heap_after (request qs_plain server_api heap0 (js ''task'') None NoFields POST))
       (js ''task'') None NoFields GET) = HttpRequest None \<and>
   heap_after (request qs_plain server_api
       (heap_after (request qs_plain server_api heap0 (js ''task'') None NoFields POST))
       (js ''task'') None NoFields GET) (opt_headers (httpOptions server_api))
     = [(js ''Content-Type'', JStr (js ''application/x-www-form-urlencoded'')),
        (js ''Content-Length'', JNum (Fin 16))]"
  by code_simp

section \<open>The field selector\<close>

text \<open>
  Claim C6. For a non-empty array of field names the parameter \<open>fields\<close> that is
  serialized is the names in their order, every name after the first preceded by a
  comma; a non-empty bare string is wrapped as a one-element array and so gives the
  parameter \<open>fields\<close> equal to itself.
\<close>

theorem C6_fields_parameter:
  "(fs \<noteq> [] \<longrightarrow>
      map_of (serialized (request stringify this h path params (FieldList fs) m)) (js ''fields'')
        = Some (JStr (spec_comma_join fs))) \<and>
   (f \<noteq> [] \<longrightarrow>
      wrap_string (fields_or_empty (FieldName f)) = [f] \<and>
      map_of (serialized (request stringify this h path params (FieldName f) m)) (js ''fields'')
        = Some (JStr f))"
proof (intro conjI impI)
  assume "fs \<noteq> []"
  then have "map_of (serialized (request stringify this h path params (FieldList fs) m))
               (js ''fields'') = Some (JStr (join fs))"
    by (simp add: map_of_serialized Let_def)
  then show "map_of (serialized (request stringify this h path params (FieldList fs) m))
               (js ''fields'') = Some (JStr (spec_comma_join fs))"
    by (simp only: join_spec_comma_join)
next
  assume "f \<noteq> []"
  then show "wrap_string (fields_or_empty (FieldName f)) = [f]"
    by simp
  assume "f \<noteq> []"
  then show "map_of (serialized (request stringify this h path params (FieldName f) m))
               (js ''fields'') = Some (JStr f)"
    by (simp add: map_of_serialized Let_def)
qed

text \<open>
  The theorem at the array \<open>["name", "id", "status", "owner"]\<close>, which gives
  \<open>name,id,status,owner\<close>, at the array \<open>["name", "id"]\<close>, which gives \<open>name,id\<close>, and
  at the bare string \<open>name\<close>.
\<close>

theorem C6_fields_parameter_witness:
  "map_of (serialized (request qs_plain server_api heap0 (js ''task'') None
      (FieldList [js ''name'', js ''id'', js ''status'', js ''owner'']) GET)) (js ''fields'')
     = Some (JStr (js ''name,id,status,owner'')) \<and>
   map_of (serialized (request qs_plain server_api heap0 (js ''task'') None
      (FieldList [js ''name'', js ''id'']) GET)) (js ''fields'') = Some (JStr (js ''name,id'')) \<and>
   map_of (serialized (request qs_plain server_api heap0 (js ''task'') None
      (FieldName (js ''name'')) GET)) (js ''fields'') = Some (JStr (js ''name''))"
  using C6_fields_parameter [of "[js ''name'', js ''id'', js ''status'', js ''owner'']" qs_plain server_api heap0
      "js ''task''" None GET "js ''name''"]
    C6_fields_parameter [of "[js ''name'', js ''id'']" qs_plain server_api heap0 "js ''task''" None GET "js ''name''"]
  by (simp add: spec_comma_join_def js_def)

section \<open>The response envelope\<close>

text \<open>
  Claim C2, as the code has it. When the response is the envelope
  \<open>{"error":"not found"}\<close>: in a browser context, where the envelope is the argument of
  the JSONP callback, the promise is rejected with the value \<open>"not found"\<close> of the
  error field; in a server context, where the envelope is the parsed body, the promise
  is rejected with the whole envelope. Whatever happens afterwards does not change the
  promise.
\<close>

theorem C2_error_envelope:
  fixes rest :: "'e event list"
  assumes env: "env = JObj [(js ''error'', JStr (js ''not found''))]"
  shows "(isBrowser this \<longrightarrow>
            settled parse this (Callback env # rest) = Rejected (Value (JStr (js ''not found'')))) \<and>
         (\<not> isBrowser this \<and> parse (concat chunks) = Some env \<longrightarrow>
            settled parse this (Response # map Data chunks @ End # rest) = Rejected (Value env))"
proof (intro conjI impI)
  have e: "get_prop env (js ''error'') = Inr (JStr (js ''not found''))"
    by (simp add: env)
  have t: "truthy (JStr (js ''not found''))"
    by (simp add: js_def)
  {
    assume b: "isBrowser this"
    have "on_jsonp env (Pending :: 'e promise) = Rejected (Value (JStr (js ''not found'')))"
      using e t by (rule on_jsonp_error)
    then show "settled parse this (Callback env # rest) = Rejected (Value (JStr (js ''not found'')))"
      using browser_callback[OF b, where d = env and rest = rest and parse = parse] by simp
  }
  {
    assume s: "\<not> isBrowser this \<and> parse (concat chunks) = Some env"
    then have "on_end parse (concat chunks) (Pending :: 'e promise) = Rejected (Value env)"
      using e t by (simp add: on_end_error)
    then show "settled parse this (Response # map Data chunks @ End # rest) = Rejected (Value env)"
      using server_response[where this = this and parse = parse and chunks = chunks and rest = rest] s
        by simp
  }
qed

text \<open>
  The theorem at a callback with the envelope in a browser context, and at a response
  whose two chunks make up \<open>{"error":"not found"}\<close> in a server context.
\<close>

theorem C2_error_envelope_witness:
  \<open>settled parse_samples browser_api
     [Callback (JObj [(js ''error'', JStr (js ''not found''))]), Error ()]
     = Rejected (Value (JStr (js ''not found''))) \<and>
   settled parse_samples server_api
     [Response, Data (js ''{"error":''), Data (js ''"not found"}''), End, Error ()]
     = Rejected (Value (JObj [(js ''error'', JStr (js ''not found''))]))\<close>
proof -
  have b: "isBrowser browser_api" "\<not> isBrowser server_api"
    by (simp_all add: browser_api_def server_api_def)
  have p: \<open>parse_samples (concat [js ''{"error":'', js ''"not found"}''])
             = Some (JObj [(js ''error'', JStr (js ''not found''))])\<close>
    by (simp add: parse_samples_def js_def)
  show ?thesis
    using C2_error_envelope [OF refl, where this = browser_api and parse = parse_samples
          and rest = "[Error ()]"]
      C2_error_envelope [OF refl, where this = server_api and parse = parse_samples
          and chunks = \<open>[js ''{"error":'', js ''"not found"}'']\<close> and rest = "[Error ()]"] b p
    by simp
qed

text \<open>
  Claim C2 as stated fails in a server context: the body \<open>{"error":"not found"}\<close>
  rejects the promise with the parsed envelope, which is not the string \<open>"not found"\<close>.
\<close>

theorem C2_server_rejects_with_envelope:
  \<open>settled parse_samples server_api [Response, Data (js ''{"error":"not found"}''), End]
     = (Rejected (Value (JObj [(js ''error'', JStr (js ''not found''))])) :: unit promise) \<and>
   settled parse_samples server_api [Response, Data (js ''{"error":"not found"}''), End]
     \<noteq> (Rejected (Value (JStr (js ''not found''))) :: unit promise)\<close>
  by (simp add: settled_def run_def on_end_def parse_samples_def server_api_def js_def)

text \<open>
  Claim C7. In a server context, when the text accumulated from the chunks of the
  response is not valid JSON, the promise is rejected with that text itself, a string;
  since a settled promise stays as it is, no later event resolves it.
\<close>

theorem C7_parse_failure:
  fixes rest :: "'e event list"
  assumes "\<not> isBrowser this" and "parse (concat chunks) = None"
  shows "settled parse this (Response # map Data chunks @ End # rest)
           = Rejected (Value (JStr (concat chunks)))"
proof -
  have "on_end parse (concat chunks) (Pending :: 'e promise) = Rejected (Value (JStr (concat chunks)))"
    using assms(2) by (rule on_end_parse_failure)
  then show ?thesis
    using server_response[OF assms(1), where parse = parse and chunks = chunks and rest = rest]
    by simp
qed

text \<open>The theorem at the body \<open>not-json\<close>, delivered in two chunks.\<close>

theorem C7_parse_failure_witness:
  "settled parse_samples server_api [Response, Data (js ''not-''), Data (js ''json''), End, Error ()]
     = Rejected (Value (JStr (js ''not-json'')))"
proof -
  have s: "\<not> isBrowser server_api" by (simp add: server_api_def)
  have p: "parse_samples (concat [js ''not-'', js ''json'']) = None"
    by (simp add: parse_samples_def js_def)
  show ?thesis
    using C7_parse_failure [where this = server_api and parse = parse_samples
        and chunks = "[js ''not-'', js ''json'']" and rest = "[Error ()]", OF s p]
    by (simp add: js_def)
qed


text \<open>
  Claim C9. In a server context, when the body parses to an object with a \<open>data\<close>
  field and no truthy \<open>error\<close> field, the promise is resolved with the value of the
  \<open>data\<close> field; so the body \<open>{"data":{"id":1}}\<close>, parsed as JSON, resolves with
  \<open>{"id":1}\<close>.
\<close>

theorem C9_success_envelope:
  fixes rest :: "'e event list"
  assumes server: "\<not> isBrowser this"
  shows \<open>(parse (concat chunks) = Some (JObj kvs) \<and> map_of kvs (js ''data'') = Some d \<and>
            (\<forall>e. map_of kvs (js ''error'') = Some e \<longrightarrow> \<not> truthy e) \<longrightarrow>
            settled parse this (Response # map Data chunks @ End # rest) = Resolved d) \<and>
         (parse (js ''{"data":{"id":1}}'')
              = Some (JObj [(js ''data'', JObj [(js ''id'', JNum (Fin 1))])]) \<longrightarrow>
            settled parse this (Response # Data (js ''{"data":{"id":1}}'') # End # rest)
              = Resolved (JObj [(js ''id'', JNum (Fin 1))]))\<close>
proof -
  have general:
    "settled parse this (Response # map Data cs @ End # rest) = Resolved v"
    if p: "parse (concat cs) = Some (JObj ps)" and d: "map_of ps (js ''data'') = Some v"
      and e: "\<forall>e. map_of ps (js ''error'') = Some e \<longrightarrow> \<not> truthy e"
    for cs ps v
  proof -
    obtain err where err: "get_prop (JObj ps) (js ''error'') = Inr err" "\<not> truthy err"
      using e by (cases "map_of ps (js ''error'')") auto
    have "get_prop (JObj ps) (js ''data'') = Inr v" using d by simp
    with p err have "on_end parse (concat cs) (Pending :: 'e promise) = Resolved v"
      by (simp add: on_end_success)
    then show ?thesis
      using server_response[OF server, where parse = parse and chunks = cs and rest = rest]
      by simp
  qed
  have id: "map_of [(js ''data'', JObj [(js ''id'', JNum (Fin 1))])] (js ''data'')
              = Some (JObj [(js ''id'', JNum (Fin 1))])"
    "\<forall>e. map_of [(js ''data'', JObj [(js ''id'', JNum (Fin 1))])] (js ''error'') = Some e
          \<longrightarrow> \<not> truthy e"
    by (simp_all add: js_def)
  show ?thesis
  proof (intro conjI impI)
    assume "parse (concat chunks) = Some (JObj kvs) \<and> map_of kvs (js ''data'') = Some d \<and>
            (\<forall>e. map_of kvs (js ''error'') = Some e \<longrightarrow> \<not> truthy e)"
    then show "settled parse this (Response # map Data chunks @ End # rest) = Resolved d"
      using general[of chunks kvs d] by simp
  next
    assume \<open>parse (js ''{"data":{"id":1}}'')
              = Some (JObj [(js ''data'', JObj [(js ''id'', JNum (Fin 1))])])\<close>
    then show \<open>settled parse this (Response # Data (js ''{"data":{"id":1}}'') # End # rest)
              = Resolved (JObj [(js ''id'', JNum (Fin 1))])\<close>
      using general[of \<open>[js ''{"data":{"id":1}}'']\<close>, OF _ id] by simp
  qed
qed

text \<open>The theorem at the body \<open>{"data":{"id":1}}\<close>, in two chunks and in one.\<close>

theorem C9_success_envelope_witness:
  \<open>settled parse_samples server_api
     [Response, Data (js ''{"data":''), Data (js ''{"id":1}}''), End, Error ()]
     = Resolved (JObj [(js ''id'', JNum (Fin 1))]) \<and>
   settled parse_samples server_api [Response, Data (js ''{"data":{"id":1}}''), End, Error ()]
     = Resolved (JObj [(js ''id'', JNum (Fin 1))])\<close>
proof -
  have s: "\<not> isBrowser server_api" by (simp add: server_api_def)
  have p: \<open>parse_samples (js ''{"data":'' @ js ''{"id":1}}'')
             = Some (JObj [(js ''data'', JObj [(js ''id'', JNum (Fin 1))])])\<close>
    \<open>parse_samples (js ''{"data":{"id":1}}'')
             = Some (JObj [(js ''data'', JObj [(js ''id'', JNum (Fin 1))])])\<close>
    by (simp_all add: parse_samples_def js_def)
  have m: "js ''error'' \<noteq> js ''data''"
    by (simp add: js_def)
  show ?thesis
    using C9_success_envelope [OF s, where parse = parse_samples
        and chunks = \<open>[js ''{"data":'', js ''{"id":1}}'']\<close>
        and kvs = "[(js ''data'', JObj [(js ''id'', JNum (Fin 1))])]"
        and d = "JObj [(js ''id'', JNum (Fin 1))]" and rest = "[Error ()]"]
    by (simp add: p m)
qed

text \<open>
  Claim C10. An envelope whose \<open>error\<close> field is present but falsy is a success: the
  promise is resolved with the \<open>data\<close> field, \<open>undefined\<close> when there is none. This
  holds for the parsed body in a server context and for the argument of the JSONP
  callback in a browser context.
\<close>

theorem C10_falsy_error_is_success:
  fixes rest :: "'e event list"
  assumes "map_of kvs (js ''error'') = Some e" and "\<not> truthy e"
  shows "(\<not> isBrowser this \<and> parse (concat chunks) = Some (JObj kvs) \<longrightarrow>
            settled parse this (Response # map Data chunks @ End # rest)
              = Resolved (case map_of kvs (js ''data'') of Some d \<Rightarrow> d | None \<Rightarrow> JUndefined)) \<and>
         (isBrowser this \<longrightarrow>
            settled parse this (Callback (JObj kvs) # rest)
              = Resolved (case map_of kvs (js ''data'') of Some d \<Rightarrow> d | None \<Rightarrow> JUndefined))"
proof (intro conjI impI)
  let ?d = "case map_of kvs (js ''data'') of Some d \<Rightarrow> d | None \<Rightarrow> JUndefined"
  have e: "get_prop (JObj kvs) (js ''error'') = Inr e" using assms(1) by simp
  have d: "get_prop (JObj kvs) (js ''data'') = Inr ?d" by simp
  {
    assume s: "\<not> isBrowser this \<and> parse (concat chunks) = Some (JObj kvs)"
    then have "on_end parse (concat chunks) (Pending :: 'e promise) = Resolved ?d"
      using e assms(2) d by (simp add: on_end_success)
    then show "settled parse this (Response # map Data chunks @ End # rest) = Resolved ?d"
      using server_response[where this = this and parse = parse and chunks = chunks and rest = rest] s
      by simp
  }
  {
    assume b: "isBrowser this"
    have "on_jsonp (JObj kvs) (Pending :: 'e promise) = Resolved ?d"
      using e assms(2) d by (rule on_jsonp_success)
    then show "settled parse this (Callback (JObj kvs) # rest) = Resolved ?d"
      using browser_callback[OF b, where d = "JObj kvs" and rest = rest and parse = parse] by simp
  }
qed

text \<open>
  The theorem at the bodies \<open>{"error":"","data":7}\<close> and \<open>{"error":null}\<close> in a server
  context and at the envelope \<open>{"error":0}\<close> in a browser context.
\<close>

theorem C10_falsy_error_is_success_witness:
  \<open>settled parse_samples server_api [Response, Data (js ''{"error":"","data":7}''), End, Error ()]
     = Resolved (JNum (Fin 7)) \<and>
   settled parse_samples server_api [Response, Data (js ''{"error":null}''), End, Error ()]
     = Resolved JUndefined \<and>
   settled parse_samples browser_api [Callback (JObj [(js ''error'', JNum (Fin 0))]), Error ()]
     = Resolved JUndefined\<close>
proof -
  have b: "isBrowser browser_api" "\<not> isBrowser server_api"
    by (simp_all add: browser_api_def server_api_def)
  have p: \<open>parse_samples (js ''{"error":"","data":7}'')
             = Some (JObj [(js ''error'', JStr []), (js ''data'', JNum (Fin 7))])\<close>
    \<open>parse_samples (js ''{"error":null}'') = Some (JObj [(js ''error'', JNull)])\<close>
    by (simp_all add: parse_samples_def js_def)
  have m: "map_of [(js ''error'', JStr []), (js ''data'', JNum (Fin 7))] (js ''error'') = Some (JStr [])"
    "map_of [(js ''error'', JStr []), (js ''data'', JNum (Fin 7))] (js ''data'') = Some (JNum (Fin 7))"
    "map_of [(js ''error'', JNull)] (js ''error'') = Some JNull"
    "map_of [(js ''error'', JNull)] (js ''data'') = None"
    "map_of [(js ''error'', JNum (Fin 0))] (js ''error'') = Some (JNum (Fin 0))"
    "map_of [(js ''error'', JNum (Fin 0))] (js ''data'') = None"
    by (simp_all add: js_def)
  have t: "\<not> truthy (JStr [])" "\<not> truthy JNull" "\<not> truthy (JNum (Fin 0))"
    by simp_all
  have n: "js ''data'' \<noteq> js ''error''"
    by (simp add: js_def)
  show ?thesis
    using C10_falsy_error_is_success [OF m(1) t(1), where this = server_api and parse = parse_samples
        and chunks = \<open>[js ''{"error":"","data":7}'']\<close> and rest = "[Error ()]"]
      C10_falsy_error_is_success [OF m(3) t(2), where this = server_api and parse = parse_samples
        and chunks = \<open>[js ''{"error":null}'']\<close> and rest = "[Error ()]"]
      C10_falsy_error_is_success [OF m(5) t(3), where this = browser_api and parse = parse_samples
        and rest = "[Error ()]"]
    using b p n by simp
qed

section \<open>Failure modes\<close>

text \<open>
  Claim C8, as the code has it. In a server context a connection error reported while
  the promise is pending rejects it with the error object of the transport, a body that
  is not valid JSON rejects it with the text of the body, and an envelope with a truthy
  \<open>error\<close> field rejects it with the envelope; in every context a promise that is
  settled stays as it is, whatever happens afterwards, so there is no second settlement
  and a rejected promise never resolves.
\<close>

theorem C8_rejection_is_final:
  fixes pre post evs :: "'e event list"
  shows "(\<not> isBrowser this \<and> settled parse this pre = Pending \<longrightarrow>
            settled parse this (pre @ Error e # post) = Rejected (TransportError e)) \<and>
         (\<not> isBrowser this \<and> parse (concat chunks) = None \<longrightarrow>
            settled parse this (Response # map Data chunks @ End # post)
              = Rejected (Value (JStr (concat chunks)))) \<and>
         (\<not> isBrowser this \<and> parse (concat chunks) = Some data \<and>
            get_prop data (js ''error'') = Inr err \<and> truthy err \<longrightarrow>
            settled parse this (Response # map Data chunks @ End # post) = Rejected (Value data)) \<and>
         (settled parse this evs \<noteq> Pending \<longrightarrow>
            settled parse this (evs @ post) = settled parse this evs)"
proof (intro conjI impI)
  assume "\<not> isBrowser this \<and> settled parse this pre = Pending"
  then show "settled parse this (pre @ Error e # post) = Rejected (TransportError e)"
    by (simp add: settled_error)
next
  assume a: "\<not> isBrowser this \<and> parse (concat chunks) = None"
  then have "on_end parse (concat chunks) (Pending :: 'e promise) = Rejected (Value (JStr (concat chunks)))"
    by (simp add: on_end_parse_failure)
  then show "settled parse this (Response # map Data chunks @ End # post)
              = Rejected (Value (JStr (concat chunks)))"
    using server_response[where this = this and parse = parse and chunks = chunks and rest = post] a
    by simp
next
  assume a: "\<not> isBrowser this \<and> parse (concat chunks) = Some data \<and>
            get_prop data (js ''error'') = Inr err \<and> truthy err"
  then have "on_end parse (concat chunks) (Pending :: 'e promise) = Rejected (Value data)"
    by (simp add: on_end_error)
  then show "settled parse this (Response # map Data chunks @ End # post) = Rejected (Value data)"
    using server_response[where this = this and parse = parse and chunks = chunks and rest = post] a
    by simp
next
  assume "settled parse this evs \<noteq> Pending"
  then show "settled parse this (evs @ post) = settled parse this evs"
    by (rule settled_stable)
qed

text \<open>
  The theorem at a connection error in the middle of a response, at a malformed body,
  at an error envelope, and at a second error after the first.
\<close>

theorem C8_rejection_is_final_witness:
  \<open>settled parse_samples server_api [Response, Data (js ''{"da''), Error (3::nat), End]
     = Rejected (TransportError 3) \<and>
   settled parse_samples server_api [Response, Data (js ''not-json''), End, Error (3::nat)]
     = Rejected (Value (JStr (js ''not-json''))) \<and>
   settled parse_samples server_api [Response, Data (js ''{"error":"not found"}''), End, Error (3::nat)]
     = Rejected (Value (JObj [(js ''error'', JStr (js ''not found''))])) \<and>
   settled parse_samples server_api ([Error (3::nat)] @ [Error 4, Response, End]) = Rejected (TransportError 3)\<close>
proof -
  have s: "\<not> isBrowser server_api" by (simp add: server_api_def)
  have pre: \<open>settled parse_samples server_api [Response, Data (js ''{"da'')] = (Pending :: nat promise)\<close>
    by (simp add: settled_def run_def server_api_def)
  have one: "settled parse_samples server_api [Error (3::nat)] = Rejected (TransportError 3)"
    by (simp add: settled_def run_def server_api_def)
  have p: "parse_samples (js ''not-json'') = None"
    \<open>parse_samples (js ''{"error":"not found"}'')
       = Some (JObj [(js ''error'', JStr (js ''not found''))])\<close>
    by (simp_all add: parse_samples_def js_def)
  have g: "get_prop (JObj [(js ''error'', JStr (js ''not found''))]) (js ''error'')
             = Inr (JStr (js ''not found''))"
    "truthy (JStr (js ''not found''))"
    by (simp_all add: js_def)
  have 1: \<open>settled parse_samples server_api ([Response, Data (js ''{"da'')] @ Error (3::nat) # [End])
     = Rejected (TransportError 3)\<close>
    using C8_rejection_is_final [where this = server_api and parse = parse_samples
        and pre = \<open>[Response, Data (js ''{"da'')]\<close> and e = "3::nat" and post = "[End]"] s pre
    by simp
  have 2: \<open>settled parse_samples server_api (Response # map Data [js ''not-json''] @ End # [Error (3::nat)])
     = Rejected (Value (JStr (concat [js ''not-json''])))\<close>
    using C8_rejection_is_final [where this = server_api and parse = parse_samples
        and chunks = "[js ''not-json'']" and post = "[Error (3::nat)]"] s p(1)
    by simp
  have 3: \<open>settled parse_samples server_api
        (Response # map Data [js ''{"error":"not found"}''] @ End # [Error (3::nat)])
     = Rejected (Value (JObj [(js ''error'', JStr (js ''not found''))]))\<close>
    using C8_rejection_is_final [where this = server_api and parse = parse_samples
        and chunks = \<open>[js ''{"error":"not found"}'']\<close> and post = "[Error (3::nat)]"
        and data = "JObj [(js ''error'', JStr (js ''not found''))]"
        and err = "JStr (js ''not found'')"] s p(2) g
    by simp
  have 4: "settled parse_samples server_api ([Error (3::nat)] @ [Error 4, Response, End])
     = Rejected (TransportError 3)"
    using C8_rejection_is_final [where this = server_api and parse = parse_samples
        and evs = "[Error (3::nat)]" and post = "[Error 4, Response, End]"] one
    by simp
  show ?thesis using 1 2 3 4 by simp
qed

text \<open>
  Claim C8 as stated fails in a browser context: there no handler is registered for a
  failed load of the script, and a connection error leaves the promise pending.
\<close>

theorem C8_browser_error_leaves_pending:
  "settled parse_samples browser_api [Error ()] = Pending"
  by (simp add: settled_def run_def browser_api_def server_api_def)


end
